theory Spec2Isabelle
  imports Main "HOL-Library.Sublist" "HOL-Library.Char_ord" "HOL-Library.List_Lexorder"
    "HOL-Library.AList"
begin

section \<open>Python string operations used by the program\<close>

text \<open>
  Strings are \<^typ>\<open>string\<close>, one \<^typ>\<open>char\<close> per character (code points 0 to 255).
  \<open>s.startswith(p)\<close> is \<^term>\<open>prefix p s\<close>, \<open>s.endswith(p)\<close> is \<^term>\<open>suffix p s\<close> and
  \<open>p in s\<close> is \<^term>\<open>sublist p s\<close>.
\<close>

text \<open>\<open>s.split(c)\<close> for a one-character separator: never empty, one more piece than
  there are separators.\<close>

function split_on :: "char \<Rightarrow> string \<Rightarrow> string list" where
  "split_on c s =
     (case dropWhile (\<lambda>x. x \<noteq> c) s of
        [] \<Rightarrow> [s]
      | _ # rest \<Rightarrow> takeWhile (\<lambda>x. x \<noteq> c) s # split_on c rest)"
  by pat_completeness auto
termination
proof (relation "measure (\<lambda>(c, s). length s)")
  show "wf (measure (\<lambda>(c, s). length s))" by simp
next
  fix c :: char and s :: string and x rest
  assume d: "dropWhile (\<lambda>x. x \<noteq> c) s = x # rest"
  have "length (dropWhile (\<lambda>x. x \<noteq> c) s) \<le> length s"
    by (rule length_dropWhile_le)
  with d show "((c, rest), (c, s)) \<in> measure (\<lambda>(c, s). length s)" by simp
qed

declare split_on.simps [simp del]

text \<open>\<open>s.split(c, 1)\<close>: at most one split, at the first separator.\<close>

definition split_once :: "char \<Rightarrow> string \<Rightarrow> string list" where
  "split_once c s =
     (case dropWhile (\<lambda>x. x \<noteq> c) s of
        [] \<Rightarrow> [s]
      | _ # rest \<Rightarrow> [takeWhile (\<lambda>x. x \<noteq> c) s, rest])"

text \<open>\<open>s.replace("//", "/")\<close>: the occurrences are found left to right and do not overlap,
  so \<open>///\<close> becomes \<open>//\<close>.\<close>

fun replace_dslash :: "string \<Rightarrow> string" where
  "replace_dslash (a # b # rest) =
     (if a = CHR ''/'' \<and> b = CHR ''/'' then CHR ''/'' # replace_dslash rest
      else a # replace_dslash (b # rest))"
| "replace_dslash s = s"

section \<open>Splitting a reference\<close>

text \<open>
  \<^verbatim>\<open>
  def split_ref(jsonptr):
      if jsonptr.startswith("#"):
          return ("", JsonPtr(jsonptr[1:]))
      if "#" in jsonptr:
          parts = jsonptr.split("#", 1)
          return parts[0], JsonPtr(parts[1])
      return jsonptr, JsonPtr("")
  \<close>
\<close>

definition split_ref :: "string \<Rightarrow> string \<times> string" where
  "split_ref jsonptr =
     (if prefix ''#'' jsonptr then ('''', drop 1 jsonptr)
      else if CHR ''#'' \<in> set jsonptr then
        (let parts = split_once (CHR ''#'') jsonptr in (parts ! 0, parts ! 1))
      else (jsonptr, ''''))"

section \<open>Filter rules\<close>

text \<open>A diff operation is a dictionary from strings to strings; \<open>diff.get(k, "")\<close> reads it.\<close>

type_synonym diff = "string \<rightharpoonup> string"

definition diff_get :: "diff \<Rightarrow> string \<Rightarrow> string" where
  "diff_get d k = (case d k of None \<Rightarrow> '''' | Some v \<Rightarrow> v)"

text \<open>
  \<^verbatim>\<open>
  "ignore-added-paths": {
      "func": lambda diff: diff.get("op", "") == "add"
      and diff.get("path", "").startswith("/paths/")
      and len(diff.get("path", "").split("/")) == 3
  }
  \<close>
\<close>

definition ignore_added_paths :: "diff \<Rightarrow> bool" where
  "ignore_added_paths d \<longleftrightarrow>
     diff_get d ''op'' = ''add''
     \<and> prefix ''/paths/'' (diff_get d ''path'')
     \<and> length (split_on (CHR ''/'') (diff_get d ''path'')) = 3"


section \<open>More string operations\<close>

text \<open>\<open>str.isspace\<close> on the code points 0 to 255; \<open>s.strip()\<close> removes such characters at
  both ends.\<close>

definition is_space :: "char \<Rightarrow> bool" where
  "is_space c \<longleftrightarrow> (of_char c :: nat) \<in> set [9, 10, 11, 12, 13, 28, 29, 30, 31, 32, 133, 160]"

definition strip :: "string \<Rightarrow> string" where
  "strip s = rev (dropWhile is_space (rev (dropWhile is_space s)))"

definition is_digit :: "char \<Rightarrow> bool" where
  "is_digit c \<longleftrightarrow> 48 \<le> (of_char c :: nat) \<and> (of_char c :: nat) \<le> 57"

definition digit_val :: "char \<Rightarrow> nat" where
  "digit_val c = of_char c - 48"

text \<open>The digits of \<open>int(s)\<close>: decimal digits, with single underscores between digits.\<close>

fun digits_val :: "nat \<Rightarrow> string \<Rightarrow> nat option" where
  "digits_val acc [] = Some acc"
| "digits_val acc (c # cs) =
     (if is_digit c then digits_val (10 * acc + digit_val c) cs
      else if c = CHR ''_'' then
        (case cs of
           [] \<Rightarrow> None
         | d # ds \<Rightarrow> if is_digit d then digits_val (10 * acc + digit_val d) ds else None)
      else None)"

definition unsigned_val :: "string \<Rightarrow> nat option" where
  "unsigned_val s =
     (case s of
        [] \<Rightarrow> None
      | d # ds \<Rightarrow> if is_digit d then digits_val (digit_val d) ds else None)"

text \<open>\<open>int(s)\<close>: surrounding whitespace is dropped, one sign is allowed; \<open>None\<close> stands for
  the ValueError.\<close>

definition py_int :: "string \<Rightarrow> int option" where
  "py_int s =
     (case strip s of
        [] \<Rightarrow> None
      | c # cs \<Rightarrow>
          if c = CHR ''-'' then map_option (\<lambda>n. - int n) (unsigned_val cs)
          else if c = CHR ''+'' then map_option int (unsigned_val cs)
          else map_option int (unsigned_val (c # cs)))"

text \<open>\<open>str(index)\<close> for the index of a list element.\<close>

fun str_nat :: "nat \<Rightarrow> string" where
  "str_nat n =
     (if n < 10 then [''0123456789'' ! n]
      else str_nat (n div 10) @ [''0123456789'' ! (n mod 10)])"

declare str_nat.simps [simp del]

section \<open>JSON values and the heap\<close>

text \<open>
  What \<open>json.load\<close> reads is a tree. A float is kept as a pair (mantissa, exponent); the
  program never computes with numbers.
\<close>

datatype json =
    JNull
  | JBool bool
  | JInt int
  | JFloat int int
  | JStr string
  | JArr "json list"
  | JObj "(string \<times> json) list"

text \<open>
  In the running program dictionaries and lists are mutable objects that several places
  may hold at once, so they live in a heap, and a value holds the address of one. A
  dictionary is the list of its items in insertion order.
\<close>

datatype val =
    VNull
  | VBool bool
  | VInt int
  | VFloat int int
  | VStr string
  | VRef nat

datatype obj = ODict "(string \<times> val) list" | OList "val list"

type_synonym heap = "obj list"

datatype error =
    FileNotFoundError
  | JSONDecodeError
  | TypeError
  | ValueError
  | KeyError string
  | IndexError
  | AssertionError
  | AttributeError
  | RecursionError
  | LibraryError

definition h_get :: "heap \<Rightarrow> nat \<Rightarrow> obj option" where
  "h_get h a = (if a < length h then Some (h ! a) else None)"

definition new_obj :: "obj \<Rightarrow> heap \<Rightarrow> nat \<times> heap" where
  "new_obj ob h = (length h, h @ [ob])"

text \<open>\<open>d[k] = v\<close>, \<open>d.update(e)\<close> and the removal of a key, on the items of a dictionary.\<close>

definition dict_set :: "string \<Rightarrow> val \<Rightarrow> (string \<times> val) list \<Rightarrow> (string \<times> val) list" where
  "dict_set k v d = AList.update k v d"

definition dict_update :: "(string \<times> val) list \<Rightarrow> (string \<times> val) list \<Rightarrow> (string \<times> val) list" where
  "dict_update d e = fold (\<lambda>(k, v). dict_set k v) e d"

definition dict_del :: "string \<Rightarrow> (string \<times> val) list \<Rightarrow> (string \<times> val) list" where
  "dict_del k d = AList.delete k d"

text \<open>Building the objects of a parsed tree, children first. A repeated key of a JSON
  object keeps its first position and its last value, as \<open>dict\<close> does.\<close>

fun alloc :: "json \<Rightarrow> heap \<Rightarrow> val \<times> heap"
  and alloc_items :: "json list \<Rightarrow> heap \<Rightarrow> val list \<times> heap"
  and alloc_fields :: "(string \<times> json) list \<Rightarrow> (string \<times> val) list \<Rightarrow> heap
        \<Rightarrow> (string \<times> val) list \<times> heap" where
  "alloc JNull h = (VNull, h)"
| "alloc (JBool b) h = (VBool b, h)"
| "alloc (JInt i) h = (VInt i, h)"
| "alloc (JFloat m e) h = (VFloat m e, h)"
| "alloc (JStr s) h = (VStr s, h)"
| "alloc (JArr ts) h =
     (case alloc_items ts h of (vs, h1) \<Rightarrow>
        (case new_obj (OList vs) h1 of (a, h2) \<Rightarrow> (VRef a, h2)))"
| "alloc (JObj kts) h =
     (case alloc_fields kts [] h of (kvs, h1) \<Rightarrow>
        (case new_obj (ODict kvs) h1 of (a, h2) \<Rightarrow> (VRef a, h2)))"
| "alloc_items [] h = ([], h)"
| "alloc_items (t # ts) h =
     (case alloc t h of (v, h1) \<Rightarrow>
        (case alloc_items ts h1 of (vs, h2) \<Rightarrow> (v # vs, h2)))"
| "alloc_fields [] acc h = (acc, h)"
| "alloc_fields (kt # kts) acc h =
     (case alloc (snd kt) h of (v, h1) \<Rightarrow> alloc_fields kts (dict_set (fst kt) v acc) h1)"


section \<open>Documents, the caches and the environment\<close>

text \<open>
  \<^verbatim>\<open>
  class OpenApiDocument(dict):
      def __init__(self, data, *, path = []):
          super().__init__(data)
          self.path = [path] if isinstance(path, str) else path
  \<close>
  A document is a dictionary of the heap with its \<open>path\<close> attribute, which is never
  assigned again.
\<close>

record document =
  doc_root :: nat
  doc_path :: "string list"

text \<open>
  \<open>functools.lru_cache\<close> without arguments keeps the 128 most recently used results:
  a hit moves the entry to the front, a miss stores the new result in front and drops
  the oldest entry of a full cache. A call that raises stores nothing.
\<close>

definition lru_maxsize :: nat where
  "lru_maxsize = 128"

definition lru_get :: "'k \<Rightarrow> ('k \<times> 'v) list \<Rightarrow> 'v option" where
  "lru_get k c = map_of c k"

definition lru_touch :: "'k \<Rightarrow> 'v \<Rightarrow> ('k \<times> 'v) list \<Rightarrow> ('k \<times> 'v) list" where
  "lru_touch k v c = (k, v) # filter (\<lambda>e. fst e \<noteq> k) c"

definition lru_put :: "'k \<Rightarrow> 'v \<Rightarrow> ('k \<times> 'v) list \<Rightarrow> ('k \<times> 'v) list" where
  "lru_put k v c = take lru_maxsize ((k, v) # c)"

record state =
  heap :: heap
  doc_cache :: "(string \<times> document) list"
  frag_cache :: "((string \<times> string) \<times> nat) list"

text \<open>
  What the program takes from outside: the files (a missing file is \<open>None\<close>; a file holds
  a JSON object or text that does not parse), \<open>str(pathlib.Path(path).parents[0] / filepath)\<close>,
  \<open>json_merge_patch.merge\<close>, which works on the heap and returns the address of a
  dictionary, and \<open>str\<close> of a value that is not a string.
\<close>

datatype file_content = Object "(string \<times> json) list" | Malformed

record env =
  fs :: "string \<Rightarrow> file_content option"
  path_join :: "string \<Rightarrow> string \<Rightarrow> error + string"
  merge_patch :: "heap \<Rightarrow> nat \<Rightarrow> nat \<Rightarrow> (error + nat) \<times> heap"
  py_str :: "heap \<Rightarrow> val \<Rightarrow> string"

section \<open>Loading documents\<close>

text \<open>
  \<^verbatim>\<open>
  @functools.lru_cache
  def load_document(path):
      try:
          with open(path, mode="r") as f:
              result = OpenApiDocument(json.load(f), path=path)
              return result
      except FileNotFoundError:
          if "/examples/" in path:
              return OpenApiDocument({}, path=path)
          raise
  \<close>
\<close>

definition read_document :: "env \<Rightarrow> string \<Rightarrow> heap \<Rightarrow> (error + document) \<times> heap" where
  "read_document E path h =
     (case fs E path of
        Some (Object kts) \<Rightarrow>
          (case alloc_fields kts [] h of (kvs, h1) \<Rightarrow>
             (case new_obj (ODict kvs) h1 of (a, h2) \<Rightarrow>
                (Inr \<lparr>doc_root = a, doc_path = [path]\<rparr>, h2)))
      | Some Malformed \<Rightarrow> (Inl JSONDecodeError, h)
      | None \<Rightarrow>
          if sublist ''/examples/'' path then
            (case new_obj (ODict []) h of (a, h1) \<Rightarrow>
               (Inr \<lparr>doc_root = a, doc_path = [path]\<rparr>, h1))
          else (Inl FileNotFoundError, h))"

definition load_document :: "env \<Rightarrow> string \<Rightarrow> state \<Rightarrow> (error + document) \<times> state" where
  "load_document E path st =
     (case lru_get path (doc_cache st) of
        Some d \<Rightarrow> (Inr d, st\<lparr>doc_cache := lru_touch path d (doc_cache st)\<rparr>)
      | None \<Rightarrow>
          (case read_document E path (heap st) of
             (Inl e, h1) \<Rightarrow> (Inl e, st\<lparr>heap := h1\<rparr>)
           | (Inr d, h1) \<Rightarrow>
               (Inr d, st\<lparr>heap := h1, doc_cache := lru_put path d (doc_cache st)\<rparr>)))"

text \<open>
  \<^verbatim>\<open>
  def merge(self, other):
      self.update(mergepatch.merge(self, other))
  \<close>
\<close>

definition merge :: "env \<Rightarrow> document \<Rightarrow> document \<Rightarrow> state \<Rightarrow> (error + unit) \<times> state" where
  "merge E self other st =
     (case merge_patch E (heap st) (doc_root self) (doc_root other) of
        (Inl e, h1) \<Rightarrow> (Inl e, st\<lparr>heap := h1\<rparr>)
      | (Inr r, h1) \<Rightarrow>
          (case (h_get h1 (doc_root self), h_get h1 r) of
             (Some (ODict d), Some (ODict e)) \<Rightarrow>
               (Inr (), st\<lparr>heap := h1[doc_root self := ODict (dict_update d e)]\<rparr>)
           | _ \<Rightarrow> (Inl TypeError, st\<lparr>heap := h1\<rparr>)))"

text \<open>
  \<^verbatim>\<open>
  def load(paths):
      root = load_document(paths.pop(0))
      for path in paths:
          root.merge(load_document(path))
      return root
  \<close>
  \<open>paths\<close> is the caller's list object; the last component of the result is that list
  when \<open>load\<close> is left, by \<open>return\<close> or by an exception.
\<close>

fun load_loop :: "env \<Rightarrow> document \<Rightarrow> string list \<Rightarrow> state \<Rightarrow> (error + document) \<times> state" where
  "load_loop E root [] st = (Inr root, st)"
| "load_loop E root (path # paths) st =
     (case load_document E path st of
        (Inl e, st1) \<Rightarrow> (Inl e, st1)
      | (Inr other, st1) \<Rightarrow>
          (case merge E root other st1 of
             (Inl e, st2) \<Rightarrow> (Inl e, st2)
           | (Inr u, st2) \<Rightarrow> load_loop E root paths st2))"

definition load :: "env \<Rightarrow> string list \<Rightarrow> state
    \<Rightarrow> ((error + document) \<times> state) \<times> string list" where
  "load E paths st =
     (case paths of
        [] \<Rightarrow> ((Inl IndexError, st), paths)
      | p # rest \<Rightarrow>
          (case load_document E p st of
             (Inl e, st1) \<Rightarrow> ((Inl e, st1), rest)
           | (Inr root, st1) \<Rightarrow> (load_loop E root rest st1, rest)))"

section \<open>Resolving a reference\<close>

text \<open>\<open>document[i]\<close> on a list: a negative index counts from the end.\<close>

definition list_index :: "val list \<Rightarrow> int \<Rightarrow> error + val" where
  "list_index xs i =
     (if 0 \<le> i \<and> i < int (length xs) then Inr (xs ! nat i)
      else if i < 0 \<and> - int (length xs) \<le> i then Inr (xs ! nat (int (length xs) + i))
      else Inl IndexError)"

text \<open>
  One round of the loop of \<open>load_fragment\<close>:
  \<^verbatim>\<open>
  if isinstance(document, list):
      document = document[int(segment)]
  assert isinstance(document, dict)
  document = document[segment]
  \<close>
\<close>

definition is_list :: "heap \<Rightarrow> val \<Rightarrow> bool" where
  "is_list h v = (case v of VRef a \<Rightarrow> (case h_get h a of Some (OList xs) \<Rightarrow> True | _ \<Rightarrow> False)
                          | _ \<Rightarrow> False)"

definition index_step :: "heap \<Rightarrow> val \<Rightarrow> string \<Rightarrow> error + val" where
  "index_step h document segment =
     (case document of
        VRef a \<Rightarrow>
          (case h_get h a of
             Some (OList xs) \<Rightarrow>
               (case py_int segment of
                  None \<Rightarrow> Inl ValueError
                | Some i \<Rightarrow> list_index xs i)
           | _ \<Rightarrow> Inr document)
      | _ \<Rightarrow> Inr document)"

definition key_step :: "heap \<Rightarrow> val \<Rightarrow> string \<Rightarrow> error + val" where
  "key_step h document segment =
     (case document of
        VRef a \<Rightarrow>
          (case h_get h a of
             Some (ODict d) \<Rightarrow>
               (case map_of d segment of
                  None \<Rightarrow> Inl (KeyError segment)
                | Some v \<Rightarrow> Inr v)
           | _ \<Rightarrow> Inl AssertionError)
      | _ \<Rightarrow> Inl AssertionError)"

definition step :: "heap \<Rightarrow> val \<Rightarrow> string \<Rightarrow> error + val" where
  "step h document segment =
     (case index_step h document segment of
        Inl e \<Rightarrow> Inl e
      | Inr d1 \<Rightarrow> key_step h d1 segment)"

fun walk :: "heap \<Rightarrow> val \<Rightarrow> string list \<Rightarrow> error + val" where
  "walk h document [] = Inr document"
| "walk h document (segment # segments) =
     (case step h document segment of
        Inl e \<Rightarrow> Inl e
      | Inr d1 \<Rightarrow> walk h d1 segments)"

text \<open>The segments walked for a non-empty pointer:
  \<open>relative_jsonptr.replace("//", "/")[1:].split("/")\<close>.\<close>

definition segments :: "string \<Rightarrow> string list" where
  "segments relative_jsonptr = split_on (CHR ''/'') (drop 1 (replace_dslash relative_jsonptr))"

text \<open>\<open>document["__fragment"] = {"raw": raw_jsonptr}\<close>: the new dictionary is built first;
  the assignment raises TypeError on anything but a dictionary.\<close>

definition set_fragment :: "val \<Rightarrow> string \<Rightarrow> heap \<Rightarrow> (error + nat) \<times> heap" where
  "set_fragment document raw_jsonptr h =
     (case new_obj (ODict [(''raw'', VStr raw_jsonptr)]) h of (r, h1) \<Rightarrow>
        (case document of
           VRef a \<Rightarrow>
             (case h_get h a of
                Some (ODict d) \<Rightarrow> (Inr a, h1[a := ODict (dict_set ''__fragment'' (VRef r) d)])
              | _ \<Rightarrow> (Inl TypeError, h1))
         | _ \<Rightarrow> (Inl TypeError, h1)))"

text \<open>
  \<^verbatim>\<open>
  def load_fragment(path, raw_jsonptr):
      filepath, relative_jsonptr = split_ref(raw_jsonptr)
      if filepath:
          document = load_document(str(pathlib.Path(path).parents[0] / filepath))
      else:
          document = load_document(path)
      if relative_jsonptr:
          for segment in relative_jsonptr.replace("//", "/")[1:].split("/"):
              ...
      document["__fragment"] = {"raw": raw_jsonptr}
      return document
  \<close>
\<close>

definition target_document :: "env \<Rightarrow> string \<Rightarrow> string \<Rightarrow> state \<Rightarrow> (error + document) \<times> state" where
  "target_document E path filepath st =
     (if filepath \<noteq> [] then
        (case path_join E path filepath of
           Inl e \<Rightarrow> (Inl e, st)
         | Inr p \<Rightarrow> load_document E p st)
      else load_document E path st)"

definition resolve :: "heap \<Rightarrow> document \<Rightarrow> string \<Rightarrow> error + val" where
  "resolve h document relative_jsonptr =
     (if relative_jsonptr \<noteq> [] then walk h (VRef (doc_root document)) (segments relative_jsonptr)
      else Inr (VRef (doc_root document)))"

definition load_fragment_body :: "env \<Rightarrow> string \<Rightarrow> string \<Rightarrow> state \<Rightarrow> (error + nat) \<times> state" where
  "load_fragment_body E path raw_jsonptr st =
     (case split_ref raw_jsonptr of (filepath, relative_jsonptr) \<Rightarrow>
        (case target_document E path filepath st of
           (Inl e, st1) \<Rightarrow> (Inl e, st1)
         | (Inr document, st1) \<Rightarrow>
             (case resolve (heap st1) document relative_jsonptr of
                Inl e \<Rightarrow> (Inl e, st1)
              | Inr v \<Rightarrow>
                  (case set_fragment v raw_jsonptr (heap st1) of
                     (r, h2) \<Rightarrow> (r, st1\<lparr>heap := h2\<rparr>)))))"

definition load_fragment :: "env \<Rightarrow> string \<Rightarrow> string \<Rightarrow> state \<Rightarrow> (error + nat) \<times> state" where
  "load_fragment E path raw_jsonptr st =
     (case lru_get (path, raw_jsonptr) (frag_cache st) of
        Some a \<Rightarrow> (Inr a, st\<lparr>frag_cache := lru_touch (path, raw_jsonptr) a (frag_cache st)\<rparr>)
      | None \<Rightarrow>
          (case load_fragment_body E path raw_jsonptr st of
             (Inl e, st1) \<Rightarrow> (Inl e, st1)
           | (Inr a, st1) \<Rightarrow>
               (Inr a, st1\<lparr>frag_cache := lru_put (path, raw_jsonptr) a (frag_cache st1)\<rparr>)))"


section \<open>Normalization\<close>

text \<open>
  The dictionaries and lists that \<open>iter_normalize\<close> returns are new objects that nothing
  else holds, so its result is a tree. The state carries what it changes on the way: the
  dictionaries of the loaded documents and the two caches.
\<close>

definition is_scalar :: "val \<Rightarrow> bool" where
  "is_scalar v = (case v of VStr s \<Rightarrow> True | VInt i \<Rightarrow> True | VFloat m e \<Rightarrow> True
                        | VBool b \<Rightarrow> True | _ \<Rightarrow> False)"

fun leaf :: "val \<Rightarrow> json" where
  "leaf (VStr s) = JStr s"
| "leaf (VInt i) = JInt i"
| "leaf (VFloat m e) = JFloat m e"
| "leaf (VBool b) = JBool b"
| "leaf v = JNull"

text \<open>\<open>"$ref" in data\<close>, for data that is no string or number: a key of a dictionary, an
  element of a list, TypeError on \<open>None\<close>.\<close>

definition has_ref :: "heap \<Rightarrow> val \<Rightarrow> error + bool" where
  "has_ref h data =
     (case data of
        VRef a \<Rightarrow>
          (case h_get h a of
             Some (ODict d) \<Rightarrow> Inr (map_of d ''$ref'' \<noteq> None)
           | Some (OList xs) \<Rightarrow> Inr (List.member xs (VStr ''$ref''))
           | None \<Rightarrow> Inl TypeError)
      | _ \<Rightarrow> Inl TypeError)"

text \<open>
  \<^verbatim>\<open>
  dereffed = load_fragment(doc.path[-1], JsonPtr(str(data.pop("$ref"))))
  dereffed.update(data)
  data = dereffed
  \<close>
  \<open>doc.path[-1]\<close> is evaluated first, then the \<open>pop\<close>, then the call.
\<close>

definition deref :: "env \<Rightarrow> document \<Rightarrow> val \<Rightarrow> state \<Rightarrow> (error + val) \<times> state" where
  "deref E doc data st =
     (case doc_path doc of
        [] \<Rightarrow> (Inl IndexError, st)
      | p # ps \<Rightarrow>
          (case data of
             VRef a \<Rightarrow>
               (case h_get (heap st) a of
                  Some (ODict d) \<Rightarrow>
                    (case map_of d ''$ref'' of
                       None \<Rightarrow> (Inl (KeyError ''$ref''), st)
                     | Some r \<Rightarrow>
                         (let st1 = st\<lparr>heap := (heap st)[a := ODict (dict_del ''$ref'' d)]\<rparr>;
                              raw = (case r of VStr s \<Rightarrow> s | _ \<Rightarrow> py_str E (heap st1) r)
                          in case load_fragment E (last (p # ps)) raw st1 of
                               (Inl e, st2) \<Rightarrow> (Inl e, st2)
                             | (Inr f, st2) \<Rightarrow>
                                 (case (h_get (heap st2) f, h_get (heap st2) a) of
                                    (Some (ODict fd), Some (ODict dd)) \<Rightarrow>
                                      (Inr (VRef f),
                                       st2\<lparr>heap := (heap st2)[f := ODict (dict_update fd dd)]\<rparr>)
                                  | _ \<Rightarrow> (Inl TypeError, st2))))
                | _ \<Rightarrow> (Inl TypeError, st))
           | _ \<Rightarrow> (Inl TypeError, st)))"

text \<open>\<open>list(sorted(data.keys()))\<close>; a list has no \<open>keys\<close>.\<close>

definition sorted_keys :: "heap \<Rightarrow> val \<Rightarrow> error + (nat \<times> string list)" where
  "sorted_keys h data =
     (case data of
        VRef a \<Rightarrow>
          (case h_get h a of
             Some (ODict d) \<Rightarrow> Inr (a, sort (map fst d))
           | _ \<Rightarrow> Inl AttributeError)
      | _ \<Rightarrow> Inl AttributeError)"

text \<open>
  In the functions of the loop, \<open>rec\<close> is the recursive call of \<open>iter_normalize\<close>.
  \<^verbatim>\<open>
  [iter_normalize(item, source_path=source_path + [str(index)])
   for index, item in enumerate(value)]
  \<close>
  (no list is ever changed, so its elements are those at the start of the comprehension).
\<close>

fun norm_items :: "(val \<Rightarrow> string list \<Rightarrow> state \<Rightarrow> (error + json) \<times> state)
    \<Rightarrow> string list \<Rightarrow> nat \<Rightarrow> val list \<Rightarrow> state \<Rightarrow> (error + json list) \<times> state" where
  "norm_items rec source_path index [] st = (Inr [], st)"
| "norm_items rec source_path index (item # items) st =
     (case rec item (source_path @ [str_nat index]) st of
        (Inl e, st1) \<Rightarrow> (Inl e, st1)
      | (Inr t, st1) \<Rightarrow>
          (case norm_items rec source_path (Suc index) items st1 of
             (Inl e, st2) \<Rightarrow> (Inl e, st2)
           | (Inr ts, st2) \<Rightarrow> (Inr (t # ts), st2)))"

text \<open>
  \<^verbatim>\<open>
  if isinstance(value, dict):
      result[key] = iter_normalize(value, source_path + [key])
  elif isinstance(value, list):
      result[key] = [...]
  elif isinstance(value, str):
      result[key] = value.strip()
  else:
      result[key] = value
  \<close>
\<close>

definition norm_value :: "(val \<Rightarrow> string list \<Rightarrow> state \<Rightarrow> (error + json) \<times> state)
    \<Rightarrow> string list \<Rightarrow> string \<Rightarrow> val \<Rightarrow> state \<Rightarrow> (error + json) \<times> state" where
  "norm_value rec source_path key value st =
     (case value of
        VRef b \<Rightarrow>
          (case h_get (heap st) b of
             Some (ODict d) \<Rightarrow> rec value (source_path @ [key]) st
           | Some (OList xs) \<Rightarrow>
               (case norm_items rec source_path 0 xs st of
                  (Inl e, st1) \<Rightarrow> (Inl e, st1)
                | (Inr ts, st1) \<Rightarrow> (Inr (JArr ts), st1))
           | None \<Rightarrow> (Inl TypeError, st))
      | VStr s \<Rightarrow> (Inr (JStr (strip s)), st)
      | _ \<Rightarrow> (Inr (leaf value), st))"

text \<open>\<open>for key in list(sorted(data.keys())): value = data[key]; ...\<close>: the keys are fixed
  before the loop, each value is read when its turn comes.\<close>

fun norm_fields :: "(val \<Rightarrow> string list \<Rightarrow> state \<Rightarrow> (error + json) \<times> state)
    \<Rightarrow> string list \<Rightarrow> nat \<Rightarrow> string list \<Rightarrow> (string \<times> json) list \<Rightarrow> state
    \<Rightarrow> (error + json) \<times> state" where
  "norm_fields rec source_path a [] result st = (Inr (JObj result), st)"
| "norm_fields rec source_path a (key # keys) result st =
     (case h_get (heap st) a of
        Some (ODict d) \<Rightarrow>
          (case map_of d key of
             None \<Rightarrow> (Inl (KeyError key), st)
           | Some value \<Rightarrow>
               (case norm_value rec source_path key value st of
                  (Inl e, st1) \<Rightarrow> (Inl e, st1)
                | (Inr t, st1) \<Rightarrow>
                    norm_fields rec source_path a keys (AList.update key t result) st1))
      | _ \<Rightarrow> (Inl TypeError, st))"

definition iter_body :: "(val \<Rightarrow> string list \<Rightarrow> state \<Rightarrow> (error + json) \<times> state)
    \<Rightarrow> env \<Rightarrow> document \<Rightarrow> val \<Rightarrow> string list \<Rightarrow> state \<Rightarrow> (error + json) \<times> state" where
  "iter_body rec E doc data source_path st =
     (if is_scalar data then (Inr (leaf data), st)
      else
        (case has_ref (heap st) data of
           Inl e \<Rightarrow> (Inl e, st)
         | Inr b \<Rightarrow>
             (case (if b then deref E doc data st else (Inr data, st)) of
                (Inl e, st1) \<Rightarrow> (Inl e, st1)
              | (Inr data1, st1) \<Rightarrow>
                  (case sorted_keys (heap st1) data1 of
                     Inl e \<Rightarrow> (Inl e, st1)
                   | Inr (a, ks) \<Rightarrow> norm_fields rec source_path a ks [] st1))))"

text \<open>The first argument bounds the depth of the recursion, as the interpreter's recursion
  limit does; at the bound the call raises RecursionError.\<close>

fun iter_normalize :: "nat \<Rightarrow> env \<Rightarrow> document \<Rightarrow> val \<Rightarrow> string list \<Rightarrow> state
    \<Rightarrow> (error + json) \<times> state" where
  "iter_normalize 0 E doc data source_path st = (Inl RecursionError, st)"
| "iter_normalize (Suc n) E doc data source_path st =
     iter_body (iter_normalize n E doc) E doc data source_path st"

text \<open>\<open>normalize(doc, source_path)\<close> returns \<open>iter_normalize(doc, [])\<close>.\<close>

definition normalize :: "nat \<Rightarrow> env \<Rightarrow> document \<Rightarrow> string list \<Rightarrow> state
    \<Rightarrow> (error + json) \<times> state" where
  "normalize n E doc source_path st = iter_normalize n E doc (VRef (doc_root doc)) [] st"

section \<open>A run on given files\<close>

text \<open>The state when the program starts: nothing allocated, both caches empty.\<close>

definition init_state :: state where
  "init_state = \<lparr>heap = [], doc_cache = [], frag_cache = []\<rparr>"

text \<open>
  An environment for runs on a few files named by plain relative paths: a reference to
  another file is resolved in the directory of the referring file; \<open>merge_keep\<close> is what
  \<open>json_merge_patch.merge\<close> does with an empty patch (it returns its first argument
  unchanged); \<open>str\<close> of a string is the string. The runs below hold no reference to
  another file, merge only an empty document and have only strings under \<open>$ref\<close>, so
  nothing else of the three functions is used.
\<close>

definition plain_join :: "string \<Rightarrow> string \<Rightarrow> error + string" where
  "plain_join path filepath =
     (if path = [] then Inl IndexError
      else if CHR ''/'' \<in> set path then
        Inr (rev (drop 1 (dropWhile (\<lambda>c. c \<noteq> CHR ''/'') (rev path))) @ ''/'' @ filepath)
      else Inr filepath)"

definition merge_keep :: "heap \<Rightarrow> nat \<Rightarrow> nat \<Rightarrow> (error + nat) \<times> heap" where
  "merge_keep h self other = (Inr self, h)"

definition files_env :: "(string \<times> file_content) list \<Rightarrow> env" where
  "files_env files =
     \<lparr>fs = map_of files, path_join = plain_join, merge_patch = merge_keep,
      py_str = (\<lambda>h v. (case v of VStr s \<Rightarrow> s | _ \<Rightarrow> ''''))\<rparr>"

text \<open>\<open>{"a/b": {"k": 1}, "a": {"b": {"k": 2}}}\<close>\<close>

definition slash_doc :: file_content where
  "slash_doc = Object [(''a/b'', JObj [(''k'', JInt 1)]),
                       (''a'', JObj [(''b'', JObj [(''k'', JInt 2)])])]"

text \<open>\<open>{"a": [{"x": 1}]}\<close>\<close>

definition list_doc :: file_content where
  "list_doc = Object [(''a'', JArr [JObj [(''x'', JInt 1)]])]"

text \<open>One side of \<open>compare\<close>: \<open>normalize(load(paths), [])\<close>.\<close>

definition normalized :: "nat \<Rightarrow> env \<Rightarrow> string list \<Rightarrow> state \<Rightarrow> (error + json) \<times> state" where
  "normalized n E paths st =
     (case load E paths st of
        ((Inl e, st1), rest) \<Rightarrow> (Inl e, st1)
      | ((Inr doc, st1), rest) \<Rightarrow> normalize n E doc [] st1)"

text \<open>The value of a normalized tree under a top-level key.\<close>

definition at_key :: "error + json \<Rightarrow> string \<Rightarrow> json option" where
  "at_key r k = (case r of Inr (JObj kvs) \<Rightarrow> map_of kvs k | _ \<Rightarrow> None)"

text \<open>What a reader finds who asks \<open>load_document\<close> for the document of a path and walks
  a pointer in it: the items of the dictionary there.\<close>

definition read_at :: "env \<Rightarrow> string \<Rightarrow> string \<Rightarrow> state \<Rightarrow> (string \<times> val) list option" where
  "read_at E path relative_jsonptr st =
     (case load_document E path st of
        (Inl e, st1) \<Rightarrow> None
      | (Inr document, st1) \<Rightarrow>
          (case resolve (heap st1) document relative_jsonptr of
             Inr (VRef a) \<Rightarrow>
               (case h_get (heap st1) a of Some (ODict items) \<Rightarrow> Some items | _ \<Rightarrow> None)
           | _ \<Rightarrow> None))"


text \<open>\<open>{"a": {"$ref": "#/b", "x": 2}, "b": {"x": 1, "y": 3}}\<close>\<close>

definition override_doc :: file_content where
  "override_doc = Object [(''a'', JObj [(''$ref'', JStr ''#/b''), (''x'', JInt 2)]),
                          (''b'', JObj [(''x'', JInt 1), (''y'', JInt 3)])]"

text \<open>\<open>{"0": {"$ref": "#/b/c"}, "a": {"$ref": "#/b", "c": {"z": 1}}, "b": {"c": {"y": 1}}}\<close>\<close>

definition shadow_doc :: file_content where
  "shadow_doc = Object [(''0'', JObj [(''$ref'', JStr ''#/b/c'')]),
                        (''a'', JObj [(''$ref'', JStr ''#/b''), (''c'', JObj [(''z'', JInt 1)])]),
                        (''b'', JObj [(''c'', JObj [(''y'', JInt 1)])])]"

section \<open>Canonical trees\<close>








section \<open>Properties of the string operations\<close>

lemma dropWhile_no_sep: "c \<notin> set s \<Longrightarrow> dropWhile (\<lambda>x. x \<noteq> c) s = []"
  by (induction s) auto

lemma dropWhile_first_sep:
  "c \<notin> set p \<Longrightarrow> dropWhile (\<lambda>x. x \<noteq> c) (p @ c # rest) = c # rest"
  by (induction p) auto

lemma takeWhile_first_sep:
  "c \<notin> set p \<Longrightarrow> takeWhile (\<lambda>x. x \<noteq> c) (p @ c # rest) = p"
  by (induction p) auto

lemma split_on_no_sep: "c \<notin> set s \<Longrightarrow> split_on c s = [s]"
  by (subst split_on.simps) (simp add: dropWhile_no_sep)

lemma split_on_sep: "c \<notin> set p \<Longrightarrow> split_on c (p @ c # rest) = p # split_on c rest"
  by (subst split_on.simps) (simp add: dropWhile_first_sep takeWhile_first_sep)

lemma split_once_sep: "c \<notin> set p \<Longrightarrow> split_once c (p @ c # rest) = [p, rest]"
  by (simp add: split_once_def dropWhile_first_sep takeWhile_first_sep)

lemma split_at_first: "c \<in> set s \<Longrightarrow> \<exists>p rest. s = p @ c # rest \<and> c \<notin> set p"
  by (rule split_list_first)

lemma split_on_not_Nil: "split_on c s \<noteq> []"
  by (subst split_on.simps) (simp split: list.splits)

lemma split_on_one: "length (split_on c r) = 1 \<Longrightarrow> c \<notin> set r"
proof
  assume len2: "length (split_on c r) = 1"
  assume "c \<in> set r"
  from split_at_first [OF this] obtain a b where ab: "r = a @ c # b" "c \<notin> set a"
    by (elim exE conjE)
  from ab(2) have "split_on c (a @ c # b) = a # split_on c b" by (rule split_on_sep)
  with ab(1) have e: "split_on c r = a # split_on c b" by simp
  from len2 have "length (a # split_on c b) = 1" unfolding e .
  then have "split_on c b = []" by simp
  then show False using split_on_not_Nil by blast
qed

lemma split_on_more: "2 \<le> length (split_on c s) \<Longrightarrow> c \<in> set s"
proof (rule ccontr)
  assume len: "2 \<le> length (split_on c s)"
  assume "c \<notin> set s"
  then have "split_on c s = [s]" by (rule split_on_no_sep)
  with len show False by simp
qed

lemma split_on_length3:
  "length (split_on c s) = 3 \<longleftrightarrow>
     (\<exists>p q r. s = p @ c # q @ c # r \<and> c \<notin> set p \<and> c \<notin> set q \<and> c \<notin> set r)"
proof
  assume len: "length (split_on c s) = 3"
  then have "c \<in> set s" by (intro split_on_more) simp
  from split_at_first [OF this] obtain p s1 where s: "s = p @ c # s1" and p: "c \<notin> set p"
    by (elim exE conjE)
  from p have "split_on c (p @ c # s1) = p # split_on c s1" by (rule split_on_sep)
  with len s have len1: "length (split_on c s1) = 2" by simp
  then have "c \<in> set s1" by (intro split_on_more) simp
  from split_at_first [OF this] obtain q r where s1: "s1 = q @ c # r" and q: "c \<notin> set q"
    by (elim exE conjE)
  from q have "split_on c (q @ c # r) = q # split_on c r" by (rule split_on_sep)
  with len1 s1 have "length (split_on c r) = 1" by simp
  then have r: "c \<notin> set r" by (rule split_on_one)
  from s s1 have "s = p @ c # q @ c # r" by simp
  with p q r show "\<exists>p q r. s = p @ c # q @ c # r \<and> c \<notin> set p \<and> c \<notin> set q \<and> c \<notin> set r"
    by (intro exI conjI)
next
  assume "\<exists>p q r. s = p @ c # q @ c # r \<and> c \<notin> set p \<and> c \<notin> set q \<and> c \<notin> set r"
  then obtain p q r where "s = p @ c # q @ c # r" "c \<notin> set p" "c \<notin> set q" "c \<notin> set r"
    by (elim exE conjE)
  then show "length (split_on c s) = 3"
    by (simp add: split_on_sep split_on_no_sep)
qed

section \<open>Splitting a reference and the filter for added paths\<close>

text \<open>
  Claim C3. For every string, \<open>split_ref\<close> follows the three rules in order: a string that
  starts with \<open>#\<close> gives an empty filepath and the rest as fragment; a string that holds a
  \<open>#\<close> is split at the first one; any other string is the filepath, with an empty
  fragment. The three forms \<open>#/a/b\<close>, \<open>other.json#/a/b\<close> and \<open>other.json\<close> are told apart.
\<close>

theorem split_ref_rules:
  "split_ref (CHR ''#'' # rest) = ('''', rest)
   \<and> (CHR ''#'' \<notin> set pre \<longrightarrow> split_ref (pre @ CHR ''#'' # post) = (pre, post))
   \<and> (CHR ''#'' \<notin> set s \<longrightarrow> split_ref s = (s, ''''))
   \<and> split_ref ''#/a/b'' = ('''', ''/a/b'')
   \<and> split_ref ''other.json#/a/b'' = (''other.json'', ''/a/b'')
   \<and> split_ref ''other.json'' = (''other.json'', '''')"
proof (intro conjI impI)
  show "split_ref (CHR ''#'' # rest) = ('''', rest)"
    by (simp add: split_ref_def)
  show "split_ref (pre @ CHR ''#'' # post) = (pre, post)" if "CHR ''#'' \<notin> set pre"
  proof (cases pre)
    case Nil
    then show ?thesis by (simp add: split_ref_def)
  next
    case (Cons a as)
    with that have "a \<noteq> CHR ''#''" by auto
    with Cons have "\<not> prefix ''#'' (pre @ CHR ''#'' # post)" by simp
    then show ?thesis using that by (simp add: split_ref_def split_once_sep)
  qed
  show "split_ref s = (s, '''')" if "CHR ''#'' \<notin> set s"
  proof -
    from that have "\<not> prefix ''#'' s" by (cases s) auto
    with that show ?thesis by (simp add: split_ref_def)
  qed
  show "split_ref ''#/a/b'' = ('''', ''/a/b'')" by (simp add: split_ref_def)
  show "split_ref ''other.json#/a/b'' = (''other.json'', ''/a/b'')"
    by (simp add: split_ref_def split_once_def)
  show "split_ref ''other.json'' = (''other.json'', '''')" by (simp add: split_ref_def)
qed

theorem split_ref_rules_witness:
  "CHR ''#'' \<notin> set ''other.json''
   \<and> split_ref (''other.json'' @ CHR ''#'' # ''/a/b'') = (''other.json'', ''/a/b'')
   \<and> split_ref ''other.json'' = (''other.json'', '''')"
proof -
  have h: "CHR ''#'' \<notin> set ''other.json''" by simp
  note r = split_ref_rules [of "[]" "''other.json''" "''/a/b''" "''other.json''"]
  from r have "CHR ''#'' \<notin> set ''other.json'' \<longrightarrow>
      split_ref (''other.json'' @ CHR ''#'' # ''/a/b'') = (''other.json'', ''/a/b'')"
    by (elim conjE)
  with h have a: "split_ref (''other.json'' @ CHR ''#'' # ''/a/b'') = (''other.json'', ''/a/b'')"
    by (rule rev_mp)
  from r have "CHR ''#'' \<notin> set ''other.json'' \<longrightarrow> split_ref ''other.json'' = (''other.json'', '''')"
    by (elim conjE)
  with h have b: "split_ref ''other.json'' = (''other.json'', '''')"
    by (rule rev_mp)
  from h a b show ?thesis by (intro conjI)
qed

text \<open>
  Claim C7. The rule \<open>ignore-added-paths\<close> suppresses an operation exactly when its kind is
  \<open>add\<close>, its path starts with \<open>/paths/\<close> and the path is three pieces without \<open>/\<close>
  joined by \<open>/\<close>; it suppresses the addition of \<open>/paths/newRoute\<close> and keeps that of
  \<open>/paths/newRoute/get\<close>.
\<close>

theorem ignore_added_paths_iff:
  "(ignore_added_paths d \<longleftrightarrow>
      diff_get d ''op'' = ''add''
      \<and> prefix ''/paths/'' (diff_get d ''path'')
      \<and> (\<exists>p q r. diff_get d ''path'' = p @ CHR ''/'' # q @ CHR ''/'' # r
            \<and> CHR ''/'' \<notin> set p \<and> CHR ''/'' \<notin> set q \<and> CHR ''/'' \<notin> set r))
   \<and> ignore_added_paths [''op'' \<mapsto> ''add'', ''path'' \<mapsto> ''/paths/newRoute'']
   \<and> \<not> ignore_added_paths [''op'' \<mapsto> ''add'', ''path'' \<mapsto> ''/paths/newRoute/get'']"
proof (intro conjI)
  show "ignore_added_paths d \<longleftrightarrow>
      diff_get d ''op'' = ''add''
      \<and> prefix ''/paths/'' (diff_get d ''path'')
      \<and> (\<exists>p q r. diff_get d ''path'' = p @ CHR ''/'' # q @ CHR ''/'' # r
            \<and> CHR ''/'' \<notin> set p \<and> CHR ''/'' \<notin> set q \<and> CHR ''/'' \<notin> set r)"
    unfolding ignore_added_paths_def split_on_length3 ..
  show "ignore_added_paths [''op'' \<mapsto> ''add'', ''path'' \<mapsto> ''/paths/newRoute'']"
    by (simp add: ignore_added_paths_def diff_get_def split_on.simps)
  show "\<not> ignore_added_paths [''op'' \<mapsto> ''add'', ''path'' \<mapsto> ''/paths/newRoute/get'']"
    by (simp add: ignore_added_paths_def diff_get_def split_on.simps)
qed

section \<open>Walking a pointer\<close>

lemma replace_dslash_plain: "CHR ''/'' \<notin> set q \<Longrightarrow> replace_dslash q = q"
  by (induction q rule: replace_dslash.induct) auto

lemma replace_dslash_plain_slash:
  "CHR ''/'' \<notin> set q \<Longrightarrow> replace_dslash (CHR ''/'' # q) = CHR ''/'' # q"
  by (cases q) (auto simp: replace_dslash_plain)

lemma replace_dslash_segment:
  "CHR ''/'' \<notin> set p \<Longrightarrow> CHR ''/'' \<notin> set q \<Longrightarrow>
   replace_dslash (p @ ''//'' @ q) = p @ CHR ''/'' # q"
  by (induction p rule: replace_dslash.induct) (auto simp: replace_dslash_plain)

lemma replace_dslash_pointer:
  assumes "CHR ''/'' \<notin> set p" and "CHR ''/'' \<notin> set q"
  shows "drop 1 (replace_dslash (CHR ''/'' # p @ ''//'' @ q)) = p @ CHR ''/'' # q"
proof (cases p)
  case Nil
  with assms show ?thesis by (simp add: replace_dslash_plain_slash)
next
  case (Cons a as)
  with assms have "a \<noteq> CHR ''/''" by auto
  with Cons have "replace_dslash (CHR ''/'' # p @ ''//'' @ q) = CHR ''/'' # replace_dslash (p @ ''//'' @ q)"
    by simp
  moreover from assms have "replace_dslash (p @ ''//'' @ q) = p @ CHR ''/'' # q"
    by (rule replace_dslash_segment)
  ultimately show ?thesis by simp
qed

lemma split_on_pieces: "seg \<in> set (split_on c s) \<Longrightarrow> c \<notin> set seg"
proof (induction c s rule: split_on.induct)
  case (1 c s)
  show ?case
  proof (cases "dropWhile (\<lambda>x. x \<noteq> c) s")
    case Nil
    then have "c \<notin> set s" by (auto simp: dropWhile_eq_Nil_conv)
    moreover from this have "split_on c s = [s]" by (rule split_on_no_sep)
    ultimately show ?thesis using "1.prems" by simp
  next
    case (Cons x rest)
    then have e: "split_on c s = takeWhile (\<lambda>x. x \<noteq> c) s # split_on c rest"
      by (subst split_on.simps) simp
    have "c \<notin> set (takeWhile (\<lambda>x. x \<noteq> c) s)"
      by (auto dest: set_takeWhileD)
    with e "1.prems" "1.IH"[OF Cons] show ?thesis by auto
  qed
qed

text \<open>
  Claim C4, as the code has it. \<open>load_fragment\<close> replaces a doubled slash of the pointer by
  a single slash before it splits the pointer, so the doubled slash separates two segments
  as a single slash does: the pointer \<open>/p//q\<close> is walked as the segment \<open>p\<close>, then the
  segment \<open>q\<close>, and no walked segment ever contains a slash.
\<close>

theorem doubled_slash_separates:
  "(CHR ''/'' \<notin> set p \<and> CHR ''/'' \<notin> set q \<longrightarrow>
      resolve h document (CHR ''/'' # p @ ''//'' @ q) = walk h (VRef (doc_root document)) [p, q])
   \<and> (seg \<in> set (segments r) \<longrightarrow> CHR ''/'' \<notin> set seg)"
proof (intro conjI impI)
  assume a: "CHR ''/'' \<notin> set p \<and> CHR ''/'' \<notin> set q"
  then have "drop 1 (replace_dslash (CHR ''/'' # p @ ''//'' @ q)) = p @ CHR ''/'' # q"
    by (intro replace_dslash_pointer) simp_all
  with a have "segments (CHR ''/'' # p @ ''//'' @ q) = [p, q]"
    unfolding segments_def by (simp add: split_on_sep split_on_no_sep)
  then show "resolve h document (CHR ''/'' # p @ ''//'' @ q) = walk h (VRef (doc_root document)) [p, q]"
    by (simp add: resolve_def)
next
  assume "seg \<in> set (segments r)"
  then show "CHR ''/'' \<notin> set seg"
    unfolding segments_def by (rule split_on_pieces)
qed

theorem doubled_slash_separates_witness:
  "(CHR ''/'' \<notin> set ''a'' \<and> CHR ''/'' \<notin> set ''b'')
   \<and> resolve [ODict [(''b'', VInt 7)], ODict [(''a'', VRef 0)]] \<lparr>doc_root = 1, doc_path = [''main.json'']\<rparr>
         (CHR ''/'' # ''a'' @ ''//'' @ ''b'') = Inr (VInt 7)
   \<and> ''b'' \<in> set (segments ''/a//b'') \<and> CHR ''/'' \<notin> set ''b''"
proof -
  have h: "CHR ''/'' \<notin> set ''a'' \<and> CHR ''/'' \<notin> set ''b''" by simp
  have m: "''b'' \<in> set (segments ''/a//b'')" by code_simp
  note r = doubled_slash_separates [of "''a''" "''b''"
      "[ODict [(''b'', VInt 7)], ODict [(''a'', VRef 0)]]"
      "\<lparr>doc_root = 1, doc_path = [''main.json'']\<rparr>" "''b''" "''/a//b''"]
  from r [THEN conjunct1, THEN mp, OF h]
  have "resolve [ODict [(''b'', VInt 7)], ODict [(''a'', VRef 0)]]
      \<lparr>doc_root = 1, doc_path = [''main.json'']\<rparr> (CHR ''/'' # ''a'' @ ''//'' @ ''b'')
      = walk [ODict [(''b'', VInt 7)], ODict [(''a'', VRef 0)]]
          (VRef (doc_root \<lparr>doc_root = 1, doc_path = [''main.json'']\<rparr>)) [''a'', ''b'']" .
  also have "\<dots> = Inr (VInt 7)" by code_simp
  finally have a: "resolve [ODict [(''b'', VInt 7)], ODict [(''a'', VRef 0)]]
      \<lparr>doc_root = 1, doc_path = [''main.json'']\<rparr> (CHR ''/'' # ''a'' @ ''//'' @ ''b'') = Inr (VInt 7)" .
  from r [THEN conjunct2, THEN mp, OF m] have b: "CHR ''/'' \<notin> set ''b''" .
  from h a m b show ?thesis by blast
qed

text \<open>
  Claim C4 as stated fails: in \<open>{"a/b": {"k": 1}, "a": {"b": {"k": 2}}}\<close> the pointer
  \<open>#/a//b\<close> reaches the dictionary under \<open>a\<close>, then \<open>b\<close> (where \<open>k\<close> is 2), not the one under
  the key \<open>a/b\<close>.
\<close>

theorem doubled_slash_counterexample:
  "(case load_fragment (files_env [(''main.json'', slash_doc)]) ''main.json'' ''#/a//b'' init_state of
      (Inr a, st) \<Rightarrow> map_option (\<lambda>ob. case ob of ODict d \<Rightarrow> map_of d ''k'' | OList xs \<Rightarrow> None)
                        (h_get (heap st) a)
    | (Inl e, st) \<Rightarrow> None) = Some (Some (VInt 2))"
  by code_simp

text \<open>
  Claim C2 says that a segment applied to a list is one index operation and nothing more.
  The loop has no \<open>else\<close>: after \<open>document[int(segment)]\<close> the same segment is looked up as a
  key in the element. In \<open>{"a": [{"x": 1}]}\<close> the pointer \<open>#/a/0\<close> raises KeyError for the
  key \<open>0\<close> instead of returning \<open>{"x": 1}\<close>.
\<close>

theorem list_step_looks_up_segment_too:
  "fst (load_fragment (files_env [(''main.json'', list_doc)]) ''main.json'' ''#/a/0'' init_state)
     = Inl (KeyError ''0'')"
  by code_simp

section \<open>Loading\<close>

text \<open>
  Claim C10. For every non-empty list of paths, \<open>load\<close> removes the first element from the
  caller's list: when \<open>load\<close> is left, the list is the tail of the original one.
\<close>

theorem load_pops_first_path:
  "paths \<noteq> [] \<Longrightarrow> snd (load E paths st) = tl paths"
  by (cases paths) (simp_all add: load_def split: prod.splits sum.splits)

theorem load_pops_first_path_witness:
  "[''a.json'', ''b.json''] \<noteq> []
   \<and> snd (load (files_env []) [''a.json'', ''b.json''] init_state) = [''b.json'']"
proof -
  have h: "[''a.json'', ''b.json''] \<noteq> []" by simp
  from load_pops_first_path [OF h, of "files_env []" init_state]
  have "snd (load (files_env []) [''a.json'', ''b.json''] init_state) = [''b.json'']" by simp
  with h show ?thesis by (intro conjI)
qed



section \<open>Normalizing a reference with overrides\<close>

text \<open>
  Claim C1, as the code has it. For the document
  \<open>{"a": {"$ref": "#/b", "x": 2}, "b": {"x": 1, "y": 3}}\<close>, \<open>normalize\<close> removes the \<open>$ref\<close> key
  from the local dictionary and lays the remaining local keys over the dictionary the
  reference points to, so the local \<open>x\<close> wins; that dictionary also carries the key
  \<open>__fragment\<close> written by \<open>load_fragment\<close>, so the normalized value at \<open>a\<close> is
  \<open>{"__fragment": {"raw": "#/b"}, "x": 2, "y": 3}\<close>.
\<close>

theorem override_keeps_fragment_key:
  "at_key (fst (normalized 10 (files_env [(''main.json'', override_doc)]) [''main.json''] init_state)) ''a''
     = Some (JObj [(''__fragment'', JObj [(''raw'', JStr ''#/b'')]), (''x'', JInt 2), (''y'', JInt 3)])"
  by code_simp

text \<open>
  Claim C1 as stated fails: the normalized value at \<open>a\<close> is not exactly \<open>{"x": 2, "y": 3}\<close>;
  its keys are \<open>__fragment\<close>, \<open>x\<close> and \<open>y\<close>.
\<close>

theorem override_counterexample:
  "at_key (fst (normalized 10 (files_env [(''main.json'', override_doc)]) [''main.json''] init_state)) ''a''
     \<noteq> Some (JObj [(''x'', JInt 2), (''y'', JInt 3)])
   \<and> map_option (\<lambda>t. case t of JObj kvs \<Rightarrow> map fst kvs | _ \<Rightarrow> [])
        (at_key (fst (normalized 10 (files_env [(''main.json'', override_doc)]) [''main.json''] init_state)) ''a'')
     = Some [''__fragment'', ''x'', ''y'']"
  by code_simp

section \<open>The document that load returns\<close>








section \<open>The provenance key\<close>

lemma set_fragment_result:
  assumes "set_fragment v raw h = (Inr a, h2)"
  shows "\<exists>items. v = VRef a \<and> h_get h a = Some (ODict items)
          \<and> h_get h2 a = Some (ODict (dict_set ''__fragment'' (VRef (length h)) items))
          \<and> h_get h2 (length h) = Some (ODict [(''raw'', VStr raw)])
          \<and> (\<forall>b. b < length h \<and> b \<noteq> a \<longrightarrow> h_get h2 b = h_get h b)"
  using assms
  by (auto simp: set_fragment_def new_obj_def h_get_def nth_append
           split: val.splits option.splits obj.splits if_splits)

lemma load_document_cached:
  assumes "load_document E p st = (Inr d, st1)"
  shows "lru_get p (doc_cache st1) = Some d"
  using assms
  by (auto simp: load_document_def lru_get_def lru_touch_def lru_put_def lru_maxsize_def
           split: option.splits prod.splits sum.splits)

lemma target_document_cached:
  assumes "target_document E path filepath st = (Inr d, st1)"
  shows "\<exists>p. lru_get p (doc_cache st1) = Some d"
  using assms
  by (auto simp: target_document_def dest: load_document_cached split: if_splits sum.splits)

text \<open>
  Claim C9, as the code has it. Every \<open>load_fragment\<close> call that misses its cache and
  succeeds returns the very dictionary that the walk reaches inside the memoized Document
  (an address of the heap, not a copy) and writes the key \<open>__fragment\<close> into it: the key
  maps to a new dictionary \<open>{"raw": raw_jsonptr}\<close>, every other object that existed is
  unchanged, and the Document is in the cache of \<open>load_document\<close>. (How long the key stays
  visible at that location of the Document is not part of the statement.)
\<close>

theorem load_fragment_tags_cached_dictionary:
  assumes "lru_get (path, raw) (frag_cache st) = None"
      and "load_fragment E path raw st = (Inr a, st')"
  shows "\<exists>document st1 items p.
           target_document E path (fst (split_ref raw)) st = (Inr document, st1)
         \<and> lru_get p (doc_cache st') = Some document
         \<and> resolve (heap st1) document (snd (split_ref raw)) = Inr (VRef a)
         \<and> h_get (heap st1) a = Some (ODict items)
         \<and> h_get (heap st') a = Some (ODict (dict_set ''__fragment'' (VRef (length (heap st1))) items))
         \<and> h_get (heap st') (length (heap st1)) = Some (ODict [(''raw'', VStr raw)])
         \<and> (\<forall>b. b < length (heap st1) \<and> b \<noteq> a \<longrightarrow> h_get (heap st') b = h_get (heap st1) b)"
proof -
  obtain filepath rel where sr: "split_ref raw = (filepath, rel)" by (cases "split_ref raw")
  from assms obtain st2 where body: "load_fragment_body E path raw st = (Inr a, st2)"
    and st': "st' = st2\<lparr>frag_cache := lru_put (path, raw) a (frag_cache st2)\<rparr>"
    by (auto simp: load_fragment_def split: prod.splits sum.splits)
  from body sr obtain document st1 v h2 where
      td: "target_document E path filepath st = (Inr document, st1)"
      and rs: "resolve (heap st1) document rel = Inr v"
      and sf: "set_fragment v raw (heap st1) = (Inr a, h2)"
      and st2: "st2 = st1\<lparr>heap := h2\<rparr>"
    by (auto simp: load_fragment_body_def split: prod.splits sum.splits)
  from set_fragment_result [OF sf] obtain items where
      v: "v = VRef a" and i1: "h_get (heap st1) a = Some (ODict items)"
      and i2: "h_get h2 a = Some (ODict (dict_set ''__fragment'' (VRef (length (heap st1))) items))"
      and i3: "h_get h2 (length (heap st1)) = Some (ODict [(''raw'', VStr raw)])"
      and i4: "\<forall>b. b < length (heap st1) \<and> b \<noteq> a \<longrightarrow> h_get h2 b = h_get (heap st1) b"
    by (elim exE conjE)
  from target_document_cached [OF td] obtain p where p: "lru_get p (doc_cache st1) = Some document"
    by (elim exE)
  from st' st2 have hp: "heap st' = h2" and dc: "doc_cache st' = doc_cache st1" by simp_all
  show ?thesis
    apply (rule exI [of _ document], rule exI [of _ st1], rule exI [of _ items], rule exI [of _ p])
    using td sr rs v i1 i2 i3 i4 p hp dc by simp
qed

theorem load_fragment_tags_cached_dictionary_witness:
  "lru_get (''main.json'', ''#/b'') (frag_cache init_state) = None
   \<and> load_fragment (files_env [(''main.json'', override_doc)]) ''main.json'' ''#/b'' init_state
       = (Inr 1,
          \<lparr>heap = [ODict [(''$ref'', VStr ''#/b''), (''x'', VInt 2)],
                   ODict [(''x'', VInt 1), (''y'', VInt 3), (''__fragment'', VRef 3)],
                   ODict [(''a'', VRef 0), (''b'', VRef 1)],
                   ODict [(''raw'', VStr ''#/b'')]],
           doc_cache = [(''main.json'', \<lparr>doc_root = 2, doc_path = [''main.json'']\<rparr>)],
           frag_cache = [((''main.json'', ''#/b''), 1)]\<rparr>)
   \<and> (\<exists>document st1 items p.
         target_document (files_env [(''main.json'', override_doc)]) ''main.json''
           (fst (split_ref ''#/b'')) init_state = (Inr document, st1)
       \<and> resolve (heap st1) document (snd (split_ref ''#/b'')) = Inr (VRef 1)
       \<and> h_get (heap st1) 1 = Some (ODict items))"
proof -
  have h1: "lru_get (''main.json'', ''#/b'') (frag_cache init_state) = None" by code_simp
  have h2: "load_fragment (files_env [(''main.json'', override_doc)]) ''main.json'' ''#/b'' init_state
       = (Inr 1,
          \<lparr>heap = [ODict [(''$ref'', VStr ''#/b''), (''x'', VInt 2)],
                   ODict [(''x'', VInt 1), (''y'', VInt 3), (''__fragment'', VRef 3)],
                   ODict [(''a'', VRef 0), (''b'', VRef 1)],
                   ODict [(''raw'', VStr ''#/b'')]],
           doc_cache = [(''main.json'', \<lparr>doc_root = 2, doc_path = [''main.json'']\<rparr>)],
           frag_cache = [((''main.json'', ''#/b''), 1)]\<rparr>)"
    by code_simp
  from load_fragment_tags_cached_dictionary [OF h1 h2]
  have "\<exists>document st1 items p.
         target_document (files_env [(''main.json'', override_doc)]) ''main.json''
           (fst (split_ref ''#/b'')) init_state = (Inr document, st1)
       \<and> resolve (heap st1) document (snd (split_ref ''#/b'')) = Inr (VRef 1)
       \<and> h_get (heap st1) 1 = Some (ODict items)"
    by (elim exE conjE) (intro exI conjI)
  with h1 h2 show ?thesis by (intro conjI)
qed

text \<open>
  Claim C9 as stated fails in its last part. Normalizing
  \<open>{"0": {"$ref": "#/b/c"}, "a": {"$ref": "#/b", "c": {"z": 1}}, "b": {"c": {"y": 1}}}\<close>
  resolves \<open>#/b/c\<close> first, which tags the dictionary \<open>{"y": 1}\<close> (address 3); the override
  under \<open>a\<close> then stores \<open>{"z": 1}\<close> under \<open>c\<close> of the dictionary \<open>b\<close>. A later reader of the
  cached Document finds \<open>{"z": 1}\<close> at \<open>/b/c\<close>, without the key \<open>__fragment\<close>.
\<close>

theorem fragment_key_shadowed_counterexample:
  "lru_get (''main.json'', ''#/b/c'')
     (frag_cache (snd (normalized 10 (files_env [(''main.json'', shadow_doc)]) [''main.json''] init_state)))
     = Some 3
   \<and> h_get (heap (snd (normalized 10 (files_env [(''main.json'', shadow_doc)]) [''main.json''] init_state))) 3
     = Some (ODict [(''y'', VInt 1), (''__fragment'', VRef 6)])
   \<and> read_at (files_env [(''main.json'', shadow_doc)]) ''main.json'' ''/b/c''
       (snd (normalized 10 (files_env [(''main.json'', shadow_doc)]) [''main.json''] init_state))
     = Some [(''z'', VInt 1)]"
  by code_simp

section \<open>Normalizing a canonical tree\<close>












end
